theory Spec2Isabelle
  imports Main "HOL-Library.Multiset"
begin

section \<open>Python values used by \<^verbatim>\<open>src/lib/Vault.py\<close>\<close>

text \<open>
  The exceptions the modelled code can raise. \<open>KeyboardInterrupt\<close> is not an
  \<^verbatim>\<open>Exception\<close> in Python, so \<^verbatim>\<open>except Exception\<close> does not catch it; every other
  constructor is caught by such a handler. \<open>InputError\<close> stands for any exception other than
  \<open>KeyboardInterrupt\<close> raised while a line is read. \<open>PersistenceError\<close> and
  \<open>AuthenticationFailed\<close> are the failures the specification names for saving and unlocking.
\<close>

datatype error =
    IndexError | KeyError | TypeError | AttributeError | ValueError
  | KeyboardInterrupt | InputError | PersistenceError | AuthenticationFailed | NotFound

text \<open>
  Python list indexing: \<^verbatim>\<open>xs[i]\<close> accepts \<open>-len(xs) \<le> i < len(xs)\<close>, a negative index counting
  from the end, and raises \<open>IndexError\<close> otherwise. \<^verbatim>\<open>xs.pop(i)\<close> addresses the same way.
\<close>

definition py_index :: "'a list \<Rightarrow> int \<Rightarrow> nat option" where
  "py_index xs i =
     (if 0 \<le> i \<and> i < int (length xs) then Some (nat i)
      else if - int (length xs) \<le> i \<and> i < 0 then Some (nat (int (length xs) + i))
      else None)"

definition getitem :: "'a list \<Rightarrow> int \<Rightarrow> error + 'a" where
  "getitem xs i = (case py_index xs i of None \<Rightarrow> Inl IndexError | Some j \<Rightarrow> Inr (xs ! j))"

definition pop :: "'a list \<Rightarrow> int \<Rightarrow> error + 'a list" where
  "pop xs i =
     (case py_index xs i of
        None \<Rightarrow> Inl IndexError
      | Some j \<Rightarrow> Inr (take j xs @ drop (Suc j) xs))"

text \<open>
  Strings are lists of characters; the model covers ASCII text, where \<^verbatim>\<open>str.isdigit\<close>,
  \<^verbatim>\<open>int\<close> of a digit string, \<^verbatim>\<open>str.upper\<close> and \<^verbatim>\<open>len\<close> act character by character.
\<close>

definition isdigit_char :: "char \<Rightarrow> bool" where
  "isdigit_char c = (48 \<le> (of_char c :: nat) \<and> (of_char c :: nat) \<le> 57)"

definition isdigit :: "string \<Rightarrow> bool" where
  "isdigit s = (s \<noteq> [] \<and> list_all isdigit_char s)"

definition int_digits :: "string \<Rightarrow> nat" where
  "int_digits s = foldl (\<lambda>n c. 10 * n + ((of_char c :: nat) - 48)) 0 s"

definition upper_char :: "char \<Rightarrow> char" where
  "upper_char c =
     (case map_of (zip ''abcdefghijklmnopqrstuvwxyz'' ''ABCDEFGHIJKLMNOPQRSTUVWXYZ'') c of
        Some u \<Rightarrow> u
      | None \<Rightarrow> c)"

definition upper :: "string \<Rightarrow> string" where
  "upper s = map upper_char s"

text \<open>The substring test \<^verbatim>\<open>sub in s\<close>.\<close>

fun starts_with :: "'a list \<Rightarrow> 'a list \<Rightarrow> bool" where
  "starts_with [] ys = True"
| "starts_with (x # xs) [] = False"
| "starts_with (x # xs) (y # ys) = (x = y \<and> starts_with xs ys)"

fun py_in :: "'a list \<Rightarrow> 'a list \<Rightarrow> bool" where
  "py_in sub [] = (sub = [])"
| "py_in sub (y # ys) = (starts_with sub (y # ys) \<or> py_in sub ys)"

section \<open>The data model\<close>

text \<open>
  A secret is the dictionary \<^verbatim>\<open>{'category', 'name', 'login', 'password', 'notes'}\<close> that
  \<^verbatim>\<open>addItem\<close> builds; \<open>category\<close> holds the category number as the user typed it, the empty
  string for none. (The field \<^verbatim>\<open>notes\<close> is written \<open>notes'\<close>: \<open>notes\<close> is a reserved word.)
\<close>

record secret =
  category :: string
  name :: string
  login :: string
  password :: string
  notes' :: string

record vault_category =
  cat_id :: nat
  cat_name :: string

text \<open>
  The decrypted vault \<^verbatim>\<open>self.vault\<close>: a dictionary whose key \<^verbatim>\<open>'secrets'\<close> may be missing
  (\<open>None\<close>) until the first secret is added.
\<close>

record vault_data =
  categories :: "vault_category list"
  secrets :: "secret list option"

text \<open>
  Modelled from the spec: the vault file on disk, whose reading and writing
  (\<^verbatim>\<open>saveVault\<close>, \<^verbatim>\<open>unlock\<close>) is not defined in \<^verbatim>\<open>Vault.py\<close>. The authenticated
  encryption is ideal: a file opens under the key it was written with, and under no other.
\<close>

datatype vault_file = Encrypted string vault_data

text \<open>
  Modelled from the spec: decryption (section 4.2) "fails with IntegrityError if the tag does
  not verify (wrong key, corrupted file, or tampering)", which section 4.5 reports as
  \<open>AuthenticationFailed\<close>.
\<close>

fun decrypt :: "string \<Rightarrow> vault_file \<Rightarrow> error + vault_data" where
  "decrypt k (Encrypted k' v) = (if k = k' then Inr v else Inl AuthenticationFailed)"

text \<open>
  What the user does at a prompt (\<^verbatim>\<open>self.input\<close>, \<^verbatim>\<open>getpass.getpass\<close>): types a line,
  presses \<^verbatim>\<open>^C\<close>, or the read fails with another exception.
\<close>

datatype key_in = Typed string | CtrlC | Fault

text \<open>
  What the code prints: a line, a line ended by a carriage return (\<^verbatim>\<open>end="\r"\<close>, so that the
  next line overwrites it), a table of \<^verbatim>\<open>tabulate\<close> with its headers and rows, the message of
  an exception (\<^verbatim>\<open>print(e)\<close>), a line with a generated password suggestion, and the listing
  of the categories. Prompt texts are arguments of the input functions and are not recorded.
\<close>

datatype cell = Num int | Str string

datatype out =
    Text string
  | TextCR string
  | Table "string list" "cell list list"
  | Exc error
  | Suggestion
  | Categories "vault_category list"

record vault_config =
  hideSecretTTL :: int

text \<open>
  The state of a \<^verbatim>\<open>Vault\<close> object and of its surroundings: the fields \<^verbatim>\<open>config\<close>,
  \<^verbatim>\<open>vault\<close> (\<open>None\<close> while locked) and \<^verbatim>\<open>masterKey\<close>; the file at \<^verbatim>\<open>vaultPath\<close>;
  the calls of \<^verbatim>\<open>saveVault\<close> made so far, each with the key and the vault it was given to
  write; the outcome of the coming disk writes (\<open>False\<close>: the write fails; when the list is
  empty every write succeeds); the keyboard input still to come; and the terminal output.
  The auto-lock timer and the clipboard are not part of the model.
\<close>

record state =
  config :: vault_config
  vault :: "vault_data option"
  masterKey :: "string option"
  vaultFile :: "vault_file option"
  saves :: "(string option \<times> vault_data option) list"
  writes :: "bool list"
  stdin :: "key_in list"
  screen :: "out list"

definition print :: "out list \<Rightarrow> state \<Rightarrow> state" where
  "print os s = s\<lparr>screen := screen s @ os\<rparr>"

section \<open>Methods that \<^verbatim>\<open>Vault.py\<close> calls but does not define\<close>

text \<open>
  Modelled from the spec: \<^verbatim>\<open>saveVault\<close> is missing. Section 4.5: a mutation "triggers a
  full save: serialize Vault, encrypt with the live key and a fresh nonce, VaultStore.save. A
  save failure surfaces to the caller as PersistenceError"; section 4.3: the write is atomic, a
  failed write leaves the old file. Without a key or a vault there is nothing to encrypt
  (\<open>TypeError\<close>). The call is logged in \<open>saves\<close> whatever its outcome.
\<close>

definition saveVault :: "state \<Rightarrow> (error + unit) \<times> state" where
  "saveVault s =
     (let s1 = s\<lparr>saves := saves s @ [(masterKey s, vault s)]\<rparr> in
      case (masterKey s, vault s) of
        (Some k, Some v) \<Rightarrow>
          (case writes s of
             [] \<Rightarrow> (Inr (), s1\<lparr>vaultFile := Some (Encrypted k v)\<rparr>)
           | True # ws \<Rightarrow> (Inr (), s1\<lparr>vaultFile := Some (Encrypted k v), writes := ws\<rparr>)
           | False # ws \<Rightarrow> (Inl PersistenceError, s1\<lparr>writes := ws\<rparr>))
      | _ \<Rightarrow> (Inl TypeError, s1))"

text \<open>
  Modelled from the spec: \<^verbatim>\<open>categoryCheckId\<close> is missing. Section 3: a category is
  \<open>{id: ordinal integer, name: text}\<close>; section 4.4: a category id "must reference an
  existing category". The reference is the category number in decimal digits.
\<close>

definition categoryCheckId :: "vault_data \<Rightarrow> string \<Rightarrow> bool" where
  "categoryCheckId v c =
     (isdigit c \<and> list_ex (\<lambda>cat. cat_id cat = int_digits c) (categories v))"

text \<open>
  Modelled from the spec: \<^verbatim>\<open>categoryName\<close> is missing. Section 4.4 speaks of the
  "resolved category name" of a secret: the name of the category its reference denotes.
  The resolved name of a reference to no category is empty.
\<close>

definition categoryName :: "vault_data \<Rightarrow> string \<Rightarrow> string" where
  "categoryName v c =
     (if isdigit c then
        (case find (\<lambda>cat. cat_id cat = int_digits c) (categories v) of
           Some cat \<Rightarrow> cat_name cat
         | None \<Rightarrow> [])
      else [])"

section \<open>The operations of \<^verbatim>\<open>Vault\<close>\<close>

text \<open>The expressions \<^verbatim>\<open>self.vault['secrets']\<close> and \<^verbatim>\<open>self.vault['secrets'][i]\<close>.\<close>

definition vault_secrets :: "state \<Rightarrow> error + secret list" where
  "vault_secrets s =
     (case vault s of
        None \<Rightarrow> Inl TypeError
      | Some v \<Rightarrow> (case secrets v of None \<Rightarrow> Inl KeyError | Some xs \<Rightarrow> Inr xs))"

definition secret_at :: "state \<Rightarrow> int \<Rightarrow> error + secret" where
  "secret_at s i = (case vault_secrets s of Inl e \<Rightarrow> Inl e | Inr xs \<Rightarrow> getitem xs i)"

text \<open>
  \<^verbatim>\<open>addItem\<close>: creates the list of secrets when it is missing or empty, appends the new
  secret, saves.
\<close>

definition addItem ::
  "state \<Rightarrow> string \<Rightarrow> string \<Rightarrow> string \<Rightarrow> string \<Rightarrow> string \<Rightarrow> (error + unit) \<times> state" where
  "addItem s categoryId nm lg pw nt =
     (case vault s of
        None \<Rightarrow> (Inl AttributeError, s)
      | Some v \<Rightarrow>
          (let xs = (case secrets v of None \<Rightarrow> [] | Some ys \<Rightarrow> ys);
               item = \<lparr>category = categoryId, name = nm, login = lg, password = pw, notes' = nt\<rparr>
           in saveVault (s\<lparr>vault := Some (v\<lparr>secrets := Some (xs @ [item])\<rparr>)\<rparr>)))"

text \<open>
  Where a method ends by handing control to a menu that is not modelled, the model returns
  the call: \<open>ItemMenu k item\<close> is \<^verbatim>\<open>return self.itemMenu(k, item)\<close>, \<open>SearchResultSelection\<close>
  is \<^verbatim>\<open>return self.searchResultSelection(searchResultItems)\<close>. \<open>Command c\<close> is the return of
  a menu letter, \<open>Back\<close> the return of \<^verbatim>\<open>None\<close>.
\<close>

datatype nav =
    Back
  | Command string
  | ItemMenu int secret
  | SearchResultSelection "(nat \<times> nat) list"

text \<open>
  \<^verbatim>\<open>get\<close>: looks the secret up, shows it and opens its menu; any exception on the way
  prints it and \<^verbatim>\<open>Item does not exist.\<close> The identifier is a Python integer (\<^verbatim>\<open>int(id)\<close>
  is then the identifier itself).
\<close>

definition get :: "state \<Rightarrow> int \<Rightarrow> nav \<times> state" where
  "get s item_id =
     (case secret_at s item_id of
        Inl e \<Rightarrow> (Back, print [Exc e, Text ''Item does not exist.''] s)
      | Inr item \<Rightarrow>
          (let v = the (vault s);
               s1 = print [Text [],
                           Table [''Category'', ''Name / URL'', ''Login'']
                             [[Str (categoryName v (category item)), Str (name item),
                               Str (login item)]]] s;
               s2 = (if notes' item \<noteq> [] then print [Text [], Text ''Notes:'', Text (notes' item)] s1
                     else s1)
           in (ItemMenu item_id item, s2)))"

text \<open>
  \<^verbatim>\<open>itemDelete\<close>, with the answer of \<^verbatim>\<open>confirm('Confirm deletion?', False)\<close> as an
  argument. Every exception, also one of \<^verbatim>\<open>saveVault\<close>, ends in \<^verbatim>\<open>Item does not exist.\<close>
\<close>

definition itemDelete :: "state \<Rightarrow> int \<Rightarrow> bool \<Rightarrow> state" where
  "itemDelete s itemKey confirmed =
     (case secret_at s itemKey of
        Inl e \<Rightarrow> print [Text ''Item does not exist.''] s
      | Inr item \<Rightarrow>
          (let s1 = print [Text []] s in
           if confirmed then
             (case vault_secrets s1 of
                Inl e \<Rightarrow> print [Text ''Item does not exist.''] s1
              | Inr xs \<Rightarrow>
                  (case pop xs itemKey of
                     Inl e \<Rightarrow> print [Text ''Item does not exist.''] s1
                   | Inr xs' \<Rightarrow>
                       (case saveVault (s1\<lparr>vault := Some ((the (vault s1))\<lparr>secrets := Some xs'\<rparr>)\<rparr>) of
                          (Inl e, s2) \<Rightarrow> print [Text ''Item does not exist.''] s2
                        | (Inr u, s2) \<Rightarrow> s2)))
           else s1))"

section \<open>Keyboard input\<close>

text \<open>
  Modelled from the spec: \<^verbatim>\<open>self.input\<close> is missing; section 6 has the input of a
  passphrase as "a function returning sensitive text", and \<^verbatim>\<open>self.input\<close> is taken to
  return the line typed, as \<^verbatim>\<open>getpass.getpass\<close> does. Both take the next thing the user
  does. When nothing is left the call has not returned: the result is \<open>None\<close>, here and in
  every operation that waits for input.
\<close>

definition input :: "state \<Rightarrow> ((error + string) \<times> state) option" where
  "input s =
     (case stdin s of
        [] \<Rightarrow> None
      | Typed x # ks \<Rightarrow> Some (Inr x, s\<lparr>stdin := ks\<rparr>)
      | CtrlC # ks \<Rightarrow> Some (Inl KeyboardInterrupt, s\<lparr>stdin := ks\<rparr>)
      | Fault # ks \<Rightarrow> Some (Inl InputError, s\<lparr>stdin := ks\<rparr>))"

lemma input_consumes: "input s = Some (r, s') \<Longrightarrow> length (stdin s') < length (stdin s)"
  by (auto simp: input_def split: list.splits key_in.splits)

lemma stdin_print [simp]: "stdin (print os s) = stdin s"
  by (simp add: print_def)

text \<open>
  The prompt loop of the menus: \<^verbatim>\<open>while True: try: x = self.input(..); break\<close>, where
  \<^verbatim>\<open>KeyboardInterrupt\<close> prints an empty line and leaves the method (\<open>None\<close> is returned for
  the text) and any other exception prints an empty line and asks again.
\<close>

function input_retry :: "state \<Rightarrow> (string option \<times> state) option" where
  "input_retry s =
     (case input s of
        None \<Rightarrow> None
      | Some (Inr x, s1) \<Rightarrow> Some (Some x, s1)
      | Some (Inl e, s1) \<Rightarrow>
          if e = KeyboardInterrupt then Some (None, print [Text []] s1)
          else input_retry (print [Text []] s1))"
  by pat_completeness auto
termination
  by (relation "measure (\<lambda>s. length (stdin s))") (auto dest: input_consumes)

declare input_retry.simps [simp del]

lemma input_retry_consumes:
  "input_retry s = Some (r, s') \<Longrightarrow> length (stdin s') < length (stdin s)"
proof (induction s rule: input_retry.induct)
  case (1 s)
  show ?case
  proof (cases "input s")
    case None
    with "1.prems" show ?thesis by (simp add: input_retry.simps [of s])
  next
    case (Some p)
    obtain res s1 where p: "p = (res, s1)" by (cases p)
    have less: "length (stdin s1) < length (stdin s)"
      using Some p by (auto dest: input_consumes)
    show ?thesis
    proof (cases res)
      case (Inr x)
      with "1.prems" Some p less show ?thesis by (simp add: input_retry.simps [of s])
    next
      case (Inl e)
      show ?thesis
      proof (cases "e = KeyboardInterrupt")
        case True
        with "1.prems" Some p Inl less show ?thesis
          by (auto simp: input_retry.simps [of s])
      next
        case False
        with "1.prems" Some p Inl have "input_retry (print [Text []] s1) = Some (r, s')"
          by (simp add: input_retry.simps [of s])
        with "1.IH" [OF Some p [symmetric] Inl False]
        have "length (stdin s') < length (stdin (print [Text []] s1))" by simp
        with less show ?thesis by simp
      qed
    qed
  qed
qed

text \<open>
  The notes loop: lines are read until an empty one; an exception leaves the loop.
\<close>

function read_notes :: "state \<Rightarrow> string list \<Rightarrow> ((error + string list) \<times> state) option" where
  "read_notes s lines =
     (case input s of
        None \<Rightarrow> None
      | Some (Inl e, s1) \<Rightarrow> Some (Inl e, s1)
      | Some (Inr input_str, s1) \<Rightarrow>
          if input_str = [] then Some (Inr lines, s1)
          else read_notes s1 (lines @ [input_str]))"
  by pat_completeness auto
termination
  by (relation "measure (\<lambda>(s, lines). length (stdin s))") (auto dest: input_consumes)

declare read_notes.simps [simp del]

lemma read_notes_consumes:
  "read_notes s lines = Some (r, s') \<Longrightarrow> length (stdin s') < length (stdin s)"
proof (induction s lines rule: read_notes.induct)
  case (1 s lines)
  show ?case
  proof (cases "input s")
    case None
    with "1.prems" show ?thesis by (simp add: read_notes.simps [of s])
  next
    case (Some p)
    obtain res s1 where p: "p = (res, s1)" by (cases p)
    have less: "length (stdin s1) < length (stdin s)"
      using Some p by (auto dest: input_consumes)
    show ?thesis
    proof (cases res)
      case (Inl e)
      with "1.prems" Some p less show ?thesis by (simp add: read_notes.simps [of s])
    next
      case (Inr x)
      show ?thesis
      proof (cases "x = []")
        case True
        with "1.prems" Some p Inr less show ?thesis by (simp add: read_notes.simps [of s])
      next
        case False
        with "1.prems" Some p Inr have "read_notes s1 (lines @ [x]) = Some (r, s')"
          by (simp add: read_notes.simps [of s])
        with "1.IH" [OF Some p [symmetric] Inr False] less show ?thesis by simp
      qed
    qed
  qed
qed

text \<open>\<^verbatim>\<open>sep.join(xs)\<close>, and the newline that joins the lines of the notes.\<close>

fun join :: "string \<Rightarrow> string list \<Rightarrow> string" where
  "join sep [] = []"
| "join sep [x] = x"
| "join sep (x # y # ys) = x @ sep @ join sep (y # ys)"

definition newline :: string where
  "newline = [CHR 0x0A]"

text \<open>
  Modelled from the spec: \<^verbatim>\<open>unlock\<close> is missing. Section 4.5: it takes the passphrase,
  loads the vault file and decrypts it; on a wrong passphrase or a corrupted file it "reports
  AuthenticationFailed" and the state stays as it was; on success it "holds the decrypted
  Vault and the key in memory". A missing file is \<open>NotFound\<close> (section 4.3).
\<close>

definition unlock :: "state \<Rightarrow> ((error + unit) \<times> state) option" where
  "unlock s =
     (case input s of
        None \<Rightarrow> None
      | Some (Inl e, s1) \<Rightarrow> Some (Inl e, s1)
      | Some (Inr passphrase, s1) \<Rightarrow>
          (case vaultFile s1 of
             None \<Rightarrow> Some (Inl NotFound, s1)
           | Some f \<Rightarrow>
               (case decrypt passphrase f of
                  Inl e \<Rightarrow> Some (Inl AuthenticationFailed, s1)
                | Inr v \<Rightarrow> Some (Inr (), s1\<lparr>vault := Some v, masterKey := Some passphrase\<rparr>))))"

lemma unlock_consumes: "unlock s = Some (r, s') \<Longrightarrow> length (stdin s') < length (stdin s)"
  by (auto simp: unlock_def split: option.splits sum.splits prod.splits dest: input_consumes)

text \<open>
  Modelled from the spec: \<^verbatim>\<open>categoriesList\<close> is missing; it shows the categories of the
  vault (section 1 leaves the formatting of the list to the presentation layer).
\<close>

definition categoriesList :: "vault_data \<Rightarrow> state \<Rightarrow> state" where
  "categoriesList v s = print [Categories (categories v)] s"

section \<open>Adding a secret from user input\<close>

text \<open>
  The second half of \<^verbatim>\<open>addItemInput\<close>, from \<^verbatim>\<open># Basic settings\<close> on, for the
  \<^verbatim>\<open>categoryId\<close> that the first half has settled: name, login and password are read, then
  the notes; \<^verbatim>\<open>KeyboardInterrupt\<close> anywhere in between returns; then \<^verbatim>\<open>addItem\<close>.
\<close>

definition addItemInput_settings :: "state \<Rightarrow> string \<Rightarrow> ((error + unit) \<times> state) option" where
  "addItemInput_settings s categoryId =
     (case input s of
        None \<Rightarrow> None
      | Some (Inl e, s1) \<Rightarrow> Some (if e = KeyboardInterrupt then Inr () else Inl e, s1)
      | Some (Inr nm, s1) \<Rightarrow>
     (case input s1 of
        None \<Rightarrow> None
      | Some (Inl e, s2) \<Rightarrow> Some (if e = KeyboardInterrupt then Inr () else Inl e, s2)
      | Some (Inr lg, s2) \<Rightarrow>
     (case input (print [Suggestion] s2) of
        None \<Rightarrow> None
      | Some (Inl e, s3) \<Rightarrow> Some (if e = KeyboardInterrupt then Inr () else Inl e, s3)
      | Some (Inr pw, s3) \<Rightarrow>
     (case read_notes (print [Text ''* Notes: (press [ENTER] twice to complete)''] s3) [] of
        None \<Rightarrow> None
      | Some (Inl e, s4) \<Rightarrow> Some (if e = KeyboardInterrupt then Inr () else Inl e, s4)
      | Some (Inr lines, s4) \<Rightarrow>
     (case addItem s4 categoryId nm lg pw (join newline lines) of
        (Inl e, s5) \<Rightarrow> Some (Inl e, s5)
      | (Inr u, s5) \<Rightarrow>
          Some (Inr (), print [Text [], Text ''The new item has been saved to your vault.'',
                               Text []] s5))))))"

text \<open>
  \<^verbatim>\<open>addItemInput\<close>. When the vault has categories, they are listed and a category number
  is asked for; for a number that \<^verbatim>\<open>categoryCheckId\<close> rejects the method prints
  \<^verbatim>\<open>Invalid category. Please try again.\<close> and calls itself. When that call returns, the
  caller goes on with its own \<^verbatim>\<open>categoryId\<close>: there is no \<^verbatim>\<open>return\<close> after the call.
\<close>

function addItemInput :: "state \<Rightarrow> ((error + unit) \<times> state) option" where
  "addItemInput s =
     (case vault s of
        None \<Rightarrow> Some (Inl AttributeError, s)
      | Some v \<Rightarrow>
          if categories v \<noteq> [] then
            (case input_retry
                    (print [Text []]
                      (categoriesList v (print [Text [], Text ''* Available categories:''] s))) of
               None \<Rightarrow> None
             | Some (None, s1) \<Rightarrow> Some (Inr (), s1)
             | Some (Some categoryId, s1) \<Rightarrow>
                 if categoryId \<noteq> [] \<and> \<not> categoryCheckId v categoryId then
                   (case addItemInput (print [Text ''Invalid category. Please try again.''] s1) of
                      None \<Rightarrow> None
                    | Some (Inl e, s2) \<Rightarrow> Some (Inl e, s2)
                    | Some (Inr u, s2) \<Rightarrow> addItemInput_settings s2 categoryId)
                 else addItemInput_settings s1 categoryId)
          else
            addItemInput_settings
              (print [Text [],
                 Text ''* Category: you did not create a category yet. Create one from the main menu to use this feature!'']
                 s)
              [])"
  by pat_completeness auto
termination
  by (relation "measure (\<lambda>s. length (stdin s))")
     (auto simp: categoriesList_def dest: input_retry_consumes)

declare addItemInput.simps [simp del]

section \<open>Editing a field of a secret\<close>

datatype field = F_category | F_name | F_login | F_password | F_notes

fun set_field :: "field \<Rightarrow> string \<Rightarrow> secret \<Rightarrow> secret" where
  "set_field F_category x item = item\<lparr>category := x\<rparr>"
| "set_field F_name x item = item\<lparr>name := x\<rparr>"
| "set_field F_login x item = item\<lparr>login := x\<rparr>"
| "set_field F_password x item = item\<lparr>password := x\<rparr>"
| "set_field F_notes x item = item\<lparr>notes' := x\<rparr>"

text \<open>The assignment \<^verbatim>\<open>self.vault['secrets'][itemKey][fieldName] = fieldNewValue\<close>.\<close>

definition assign_field :: "state \<Rightarrow> int \<Rightarrow> field \<Rightarrow> string \<Rightarrow> error + state" where
  "assign_field s itemKey fieldName x =
     (case vault_secrets s of
        Inl e \<Rightarrow> Inl e
      | Inr xs \<Rightarrow>
          (case py_index xs itemKey of
             None \<Rightarrow> Inl IndexError
           | Some j \<Rightarrow>
               Inr (s\<lparr>vault := Some ((the (vault s))
                      \<lparr>secrets := Some (xs[j := set_field fieldName x (xs ! j)])\<rparr>)\<rparr>)))"

text \<open>
  \<^verbatim>\<open>editItemInput\<close>. The new value is read inside \<^verbatim>\<open>try\<close>; \<^verbatim>\<open>KeyboardInterrupt\<close>
  there returns without a change. For the category the number is checked as in
  \<^verbatim>\<open>addItemInput\<close>, and again the method calls itself for a rejected number and then goes
  on with the rejected value. Then the field is assigned and the vault saved.
\<close>

function editItemInput ::
  "state \<Rightarrow> int \<Rightarrow> field \<Rightarrow> string \<Rightarrow> ((error + unit) \<times> state) option" where
  "editItemInput s itemKey fieldName fieldCurrentValue =
     (let s0 = (if fieldName \<noteq> F_password
                then print [Text (''* Current value: '' @ fieldCurrentValue)] s else s)
      in
      case
        (if fieldName = F_password then input (print [Suggestion] s0)
         else if fieldName = F_category then
           (case vault s0 of
              None \<Rightarrow> Some (Inl TypeError, s0)
            | Some v \<Rightarrow>
                (case input (print [Text []]
                        (categoriesList v (print [Text [], Text ''* Available categories:''] s0))) of
                   None \<Rightarrow> None
                 | Some (Inl e, s1) \<Rightarrow> Some (Inl e, s1)
                 | Some (Inr fieldNewValue, s1) \<Rightarrow>
                     if fieldNewValue \<noteq> [] \<and> \<not> categoryCheckId v fieldNewValue then
                       (case editItemInput (print [Text ''Invalid category. Please try again.''] s1)
                               itemKey fieldName fieldCurrentValue of
                          None \<Rightarrow> None
                        | Some (Inl e, s2) \<Rightarrow> Some (Inl e, s2)
                        | Some (Inr u, s2) \<Rightarrow> Some (Inr fieldNewValue, s2))
                     else Some (Inr fieldNewValue, s1)))
         else if fieldName = F_notes then
           (case read_notes (print [Text ''* Notes: (press [ENTER] twice to complete)''] s0) [] of
              None \<Rightarrow> None
            | Some (Inl e, s1) \<Rightarrow> Some (Inl e, s1)
            | Some (Inr lines, s1) \<Rightarrow> Some (Inr (join newline lines), s1))
         else input s0)
      of
        None \<Rightarrow> None
      | Some (Inl e, s3) \<Rightarrow>
          if e = KeyboardInterrupt then Some (Inr (), print [Text []] s3) else Some (Inl e, s3)
      | Some (Inr fieldNewValue, s3) \<Rightarrow>
          (case assign_field s3 itemKey fieldName fieldNewValue of
             Inl e \<Rightarrow> Some (Inl e, s3)
           | Inr s4 \<Rightarrow>
               (case saveVault s4 of
                  (Inl e, s5) \<Rightarrow> Some (Inl e, s5)
                | (Inr u, s5) \<Rightarrow> Some (Inr (), print [Text ''The item has been updated.''] s5))))"
  by pat_completeness auto
termination
  by (relation "measure (\<lambda>(s, itemKey, fieldName, fieldCurrentValue). length (stdin s))")
     (auto simp: categoriesList_def dest: input_consumes)

declare editItemInput.simps [simp del]

section \<open>Changing the master key\<close>

text \<open>
  \<^verbatim>\<open>changeKey\<close>: unlocks first when the vault is locked, reads the new key and its
  confirmation, and starts again when the key has fewer than 8 characters or the two differ.
  Otherwise it assigns \<^verbatim>\<open>self.masterKey\<close>, then saves, then calls \<^verbatim>\<open>unlock\<close>.
\<close>

function changeKey :: "state \<Rightarrow> ((error + unit) \<times> state) option" where
  "changeKey s =
     (case (if vault s = None then unlock s else Some (Inr (), s)) of
        None \<Rightarrow> None
      | Some (Inl e, s0) \<Rightarrow> Some (Inl e, s0)
      | Some (Inr u, s0) \<Rightarrow>
     (case input (print [Text []] s0) of
        None \<Rightarrow> None
      | Some (Inl e, s1) \<Rightarrow> Some (Inl e, s1)
      | Some (Inr newMasterKey, s1) \<Rightarrow>
     (case input s1 of
        None \<Rightarrow> None
      | Some (Inl e, s2) \<Rightarrow> Some (Inl e, s2)
      | Some (Inr newMasterKeyRepeat, s2) \<Rightarrow>
          if length newMasterKey < 8 then
            changeKey
              (print [Text [],
                 Text ''The master key should be at least 8 characters. Please try again!'',
                 Text []] s2)
          else if newMasterKey = newMasterKeyRepeat then
            (case saveVault (s2\<lparr>masterKey := Some newMasterKey\<rparr>) of
               (Inl e, s3) \<Rightarrow> Some (Inl e, s3)
             | (Inr u, s3) \<Rightarrow>
                 unlock (print [Text [], Text ''Your master key has been updated.''] s3))
          else
            changeKey
              (print [Text [],
                 Text ''The master key does not match its confirmation. Please try again!'',
                 Text []] s2))))"
  by pat_completeness auto
termination
proof (relation "measure (\<lambda>s. length (stdin s))", goal_cases)
  case 1
  show ?case by simp
next
  case (2 s x2 res s0 u s1r r1 s1 newMasterKey p2 r2 s2 newMasterKeyRepeat)
  then have "length (stdin s0) \<le> length (stdin s)"
    by (auto split: if_splits dest: unlock_consumes)
  moreover from 2 have "input (print [Text []] s0) = Some (Inr newMasterKey, s1)"
    by auto
  then have "length (stdin s1) < length (stdin s0)"
    by (auto dest: input_consumes)
  moreover from 2 have "input s1 = Some (Inr newMasterKeyRepeat, s2)"
    by auto
  then have "length (stdin s2) < length (stdin s1)"
    by (rule input_consumes)
  ultimately show ?case by simp
next
  case (3 s x2 res s0 u s1r r1 s1 newMasterKey p2 r2 s2 newMasterKeyRepeat)
  then have "length (stdin s0) \<le> length (stdin s)"
    by (auto split: if_splits dest: unlock_consumes)
  moreover from 3 have "input (print [Text []] s0) = Some (Inr newMasterKey, s1)"
    by auto
  then have "length (stdin s1) < length (stdin s0)"
    by (auto dest: input_consumes)
  moreover from 3 have "input s1 = Some (Inr newMasterKeyRepeat, s2)"
    by auto
  then have "length (stdin s2) < length (stdin s1)"
    by (rule input_consumes)
  ultimately show ?case by simp
qed

declare changeKey.simps [simp del]

section \<open>Showing a secret\<close>

text \<open>\<^verbatim>\<open>str\<close> of an integer, for \<^verbatim>\<open>"%s" % n\<close>.\<close>

fun str_nat :: "nat \<Rightarrow> string" where
  "str_nat n =
     (if n < 10 then [''0123456789'' ! n] else str_nat (n div 10) @ [''0123456789'' ! (n mod 10)])"

declare str_nat.simps [simp del]

definition str_int :: "int \<Rightarrow> string" where
  "str_int i = (if i < 0 then CHR ''-'' # str_nat (nat (- i)) else str_nat (nat i))"

text \<open>
  What happens while the password is on show: the time runs out, or the user presses
  \<^verbatim>\<open>^C\<close>. \<^verbatim>\<open>time.sleep\<close> raises \<open>ValueError\<close> for a negative number of seconds.
\<close>

datatype wait = Elapsed | Cancelled

definition time_sleep :: "int \<Rightarrow> wait \<Rightarrow> error + unit" where
  "time_sleep secs w =
     (if secs < 0 then Inl ValueError
      else case w of Elapsed \<Rightarrow> Inr () | Cancelled \<Rightarrow> Inl KeyboardInterrupt)"

text \<open>
  \<^verbatim>\<open>itemShowSecret\<close>: the password is printed on a line that ends with a carriage return,
  and after the wait, or at \<^verbatim>\<open>KeyboardInterrupt\<close>, a line of asterisks is printed over it.
  The configured time is an integer (\<^verbatim>\<open>int(self.config['hideSecretTTL'])\<close> is then the
  value itself).
\<close>

definition itemShowSecret :: "state \<Rightarrow> string \<Rightarrow> wait \<Rightarrow> (error + unit) \<times> state" where
  "itemShowSecret s pw w =
     (let s1 = print
                 [Text (''The password will be hidden after '' @
                        str_int (hideSecretTTL (config s)) @ '' seconds.''),
                  TextCR (''The password is: '' @ pw)] s;
          hide = print [Text (''The password is: '' @ replicate (length pw) (CHR ''*''))]
      in
      case time_sleep (hideSecretTTL (config s)) w of
        Inl e \<Rightarrow> if e = KeyboardInterrupt then (Inr (), hide s1) else (Inl e, s1)
      | Inr u \<Rightarrow> (Inr (), hide s1))"

text \<open>
  What the terminal shows of an output: a line printed after a line that ended with a
  carriage return is written over it, character by character from the left (every
  character taking one column).
\<close>

fun shown :: "out list \<Rightarrow> out list" where
  "shown (TextCR a # Text b # os) = Text (b @ drop (length b) a) # shown os"
| "shown (x # os) = x # shown os"
| "shown [] = []"

section \<open>Searching\<close>

text \<open>
  Whether the query is found in a secret: in its name, login or notes, or in the name of its
  category, all in upper case.
\<close>

definition found_in :: "vault_data \<Rightarrow> string \<Rightarrow> secret \<Rightarrow> bool" where
  "found_in v q item =
     (py_in (upper q) (upper (name item)) \<or>
      py_in (upper q) (upper (login item)) \<or>
      py_in (upper q) (upper (notes' item)) \<or>
      py_in (upper q) (upper (categoryName v (category item))))"

text \<open>
  The loop over \<^verbatim>\<open>enumerate(self.vault['secrets'])\<close>, with its three variables: the rows
  of the table, the dictionary \<^verbatim>\<open>searchResultItems\<close> from result number to item number (in
  the order of its insertions), and the count of results.
\<close>

fun search_loop ::
  "vault_data \<Rightarrow> string \<Rightarrow> (nat \<times> secret) list \<Rightarrow> cell list list \<Rightarrow> (nat \<times> nat) list \<Rightarrow> nat \<Rightarrow>
   cell list list \<times> (nat \<times> nat) list \<times> nat" where
  "search_loop v q [] results searchResultItems searchResultItemNumber =
     (results, searchResultItems, searchResultItemNumber)"
| "search_loop v q ((i, item) # rest) results searchResultItems searchResultItemNumber =
     (if found_in v q item then
        search_loop v q rest
          (results @ [[Num (int (searchResultItemNumber + 1)), Num (int i),
                       Str (categoryName v (category item)), Str (name item), Str (login item)]])
          (searchResultItems @ [(searchResultItemNumber + 1, i)])
          (searchResultItemNumber + 1)
      else search_loop v q rest results searchResultItems searchResultItemNumber)"

text \<open>
  \<^verbatim>\<open>search\<close>, from the point where the query has been read: an empty query, the menu
  letters, a number that is an item number, and then the loop and what follows its results.
\<close>

definition search_for :: "state \<Rightarrow> string \<Rightarrow> (error + nav) \<times> state" where
  "search_for s q =
     (if q = [] then (Inr Back, print [Text [], Text ''Empty search!''] s)
      else if q \<in> set [''s'', ''a'', ''l'', ''q''] then (Inr (Command q), s)
      else if q = ''b'' then (Inr Back, s)
      else
        (case vault s of
           None \<Rightarrow> (Inl AttributeError, s)
         | Some v \<Rightarrow>
             (case secrets v of
                Some (x # xs') \<Rightarrow>
                  (let xs = x # xs' in
                   if isdigit q \<and> py_index xs (int (int_digits q)) \<noteq> None then
                     (case get s (int (int_digits q)) of (n, s1) \<Rightarrow> (Inr n, s1))
                   else
                     (case search_loop v q (zip [0..<length xs] xs) [] [] 0 of
                        (results, searchResultItems, searchResultItemNumber) \<Rightarrow>
                          if length results = 1 then
                            (case map_of searchResultItems 1 of
                               None \<Rightarrow> (Inl KeyError, s)
                             | Some item_id \<Rightarrow> (case get s (int item_id) of (n, s1) \<Rightarrow> (Inr n, s1)))
                          else if length results > 1 then
                            (Inr (SearchResultSelection searchResultItems),
                             print [Text [],
                                    Table [''#'', ''Item'', ''Category'', ''Name / URL'', ''Login'']
                                      results] s)
                          else (Inr Back, print [Text ''No results!''] s)))
              | _ \<Rightarrow> (Inr Back, print [Text ''There are no secrets saved yet.''] s))))"

text \<open>\<^verbatim>\<open>search\<close>: the query is read in the prompt loop, then searched for.\<close>

definition search :: "state \<Rightarrow> ((error + nav) \<times> state) option" where
  "search s =
     (case input_retry (print [Text []] s) of
        None \<Rightarrow> None
      | Some (None, s1) \<Rightarrow> Some (Inr Back, s1)
      | Some (Some q, s1) \<Rightarrow> Some (search_for s1 q))"





section \<open>Saved changes and changed keys\<close>

text \<open>
  The part of the state that a save is about: the vault, the key and the log of the saves.
  An operation that takes \<open>s\<close> to \<open>s'\<close> has persisted its changes when it has changed none
  of the three, or when it has called \<^verbatim>\<open>saveVault\<close> and the last call was given the
  whole vault and the key that \<open>s'\<close> holds.
\<close>

definition core :: "state \<Rightarrow> vault_data option \<times> string option \<times> (string option \<times> vault_data option) list" where
  "core s = (vault s, masterKey s, saves s)"


text \<open>
  The outcome of a key change from \<open>s\<close> to \<open>s'\<close>: vault, key, saves and file are as they
  were; or a key of at least 8 characters is the live key, \<^verbatim>\<open>saveVault\<close> was called once,
  with that key and the unchanged vault, and the file is the old one or holds the vault
  under the new key.
\<close>

definition same_fields :: "state \<Rightarrow> state \<Rightarrow> bool" where
  "same_fields s t \<longleftrightarrow>
     vault t = vault s \<and> masterKey t = masterKey s \<and> saves t = saves s \<and>
     vaultFile t = vaultFile s"

definition key_change :: "state \<Rightarrow> state \<Rightarrow> bool" where
  "key_change s s' \<longleftrightarrow>
     same_fields s s' \<or>
     (\<exists>new. 8 \<le> length new \<and> vault s' = vault s \<and> masterKey s' = Some new \<and>
        saves s' = saves s @ [(Some new, vault s)] \<and>
        (vaultFile s' = vaultFile s \<or>
         (\<exists>v. vault s = Some v \<and> vaultFile s' = Some (Encrypted new v))))"

section \<open>A vault to run the operations on\<close>

definition bank :: secret where
  "bank = \<lparr>category = [], name = ''bank'', login = ''alice'', password = ''p1'', notes' = []\<rparr>"

definition mail :: secret where
  "mail = \<lparr>category = ''0'', name = ''mail'', login = ''bob07'', password = ''hunter22'',
            notes' = ''work''\<rparr>"

definition demo_vault :: vault_data where
  "demo_vault = \<lparr>categories = [\<lparr>cat_id = 0, cat_name = ''web''\<rparr>], secrets = Some [bank, mail]\<rparr>"

definition demo :: state where
  "demo = \<lparr>config = \<lparr>hideSecretTTL = 5\<rparr>, vault = Some demo_vault,
            masterKey = Some ''correcthorse'',
            vaultFile = Some (Encrypted ''correcthorse'' demo_vault),
            saves = [], writes = [], stdin = [], screen = []\<rparr>"

section \<open>Basic facts: printing, saving, indexing\<close>

lemma vault_secrets_print [simp]: "vault_secrets (print os s) = vault_secrets s"
  by (simp add: vault_secrets_def print_def)

lemma vault_print [simp]: "vault (print os s) = vault s"
  by (simp add: print_def)

lemma saveVault_vault [simp]: "vault (snd (saveVault s)) = vault s"
  by (simp add: saveVault_def Let_def split: option.splits list.splits bool.splits)

lemma saveVault_masterKey [simp]: "masterKey (snd (saveVault s)) = masterKey s"
  by (simp add: saveVault_def Let_def split: option.splits list.splits bool.splits)

lemma saves_print [simp]: "saves (print os s) = saves s"
  by (simp add: print_def)

lemma print_fields [simp]:
  "masterKey (print os s) = masterKey s" "vaultFile (print os s) = vaultFile s"
  "writes (print os s) = writes s"
  by (simp_all add: print_def)

lemma py_index_in: "0 \<le> i \<Longrightarrow> i < int (length xs) \<Longrightarrow> py_index xs i = Some (nat i)"
  by (simp add: py_index_def)

lemma py_index_neg:
  "1 \<le> k \<Longrightarrow> k \<le> length xs \<Longrightarrow> py_index xs (- int k) = Some (length xs - k)"
  by (auto simp: py_index_def nat_diff_distrib)

lemma py_index_out: "int (length xs) \<le> i \<or> i < - int (length xs) \<Longrightarrow> py_index xs i = None"
  by (auto simp: py_index_def)

lemma py_index_less: "py_index xs i = Some j \<Longrightarrow> j < length xs"
  by (auto simp: py_index_def split: if_splits)

lemma vault_secrets_demo: "vault_secrets demo = Inr [bank, mail]"
  by (simp add: vault_secrets_def demo_def demo_vault_def)

section \<open>Retrieving a secret\<close>

text \<open>
  C9. In an unlocked vault with \<open>n\<close> secrets, \<^verbatim>\<open>get\<close> with the negative number \<open>-k\<close>, for
  \<open>1 \<le> k \<le> n\<close>, opens the secret at position \<open>n - k\<close> (so \<open>-1\<close> opens the last one);
  it does not end in \<^verbatim>\<open>Item does not exist.\<close>
\<close>

theorem get_negative_index:
  assumes "vault_secrets s = Inr xs" and "1 \<le> k" and "k \<le> length xs"
  shows "fst (get s (- int k)) = ItemMenu (- int k) (xs ! (length xs - k))"
  using assms by (simp add: get_def secret_at_def getitem_def py_index_neg Let_def)

theorem get_negative_index_witness:
  "vault_secrets demo = Inr [bank, mail] \<and> fst (get demo (- 1)) = ItemMenu (- 1) mail"
  using get_negative_index [of demo "[bank, mail]" 1] by (simp add: vault_secrets_demo)

text \<open>
  C5, as the code has it. For a number \<open>i\<close> with \<open>i \<ge> n\<close> or \<open>i < -n\<close>, where \<open>n\<close> is the
  number of secrets, \<^verbatim>\<open>get\<close> prints the \<open>IndexError\<close> and \<^verbatim>\<open>Item does not exist.\<close> and
  returns nothing: no secret is shown and no item menu opened.
\<close>

theorem get_out_of_range:
  assumes "vault_secrets s = Inr xs" and "int (length xs) \<le> i \<or> i < - int (length xs)"
  shows "get s i = (Back, print [Exc IndexError, Text ''Item does not exist.''] s)"
  using assms by (simp add: get_def secret_at_def getitem_def py_index_out)

theorem get_out_of_range_witness:
  "get demo 2 = (Back, print [Exc IndexError, Text ''Item does not exist.''] demo) \<and>
   get demo (- 3) = (Back, print [Exc IndexError, Text ''Item does not exist.''] demo)"
  using get_out_of_range [of demo "[bank, mail]" 2]
    get_out_of_range [of demo "[bank, mail]" "- 3"]
  by (simp add: vault_secrets_demo)

text \<open>
  C5 as it is stated fails for the negative numbers down to \<open>-n\<close>: \<open>-1\<close> is no position of a
  sequence of two secrets, and \<^verbatim>\<open>get\<close> opens the last of them.
\<close>

theorem get_minus_one_opens_last:
  "vault_secrets demo = Inr [bank, mail] \<and> (- 1 :: int) < 0 \<and>
   fst (get demo (- 1)) = ItemMenu (- 1) mail"
  by (simp add: demo_def demo_vault_def vault_secrets_def get_def secret_at_def getitem_def
      py_index_def Let_def)

section \<open>Deleting a secret\<close>

lemma itemDelete_secrets:
  assumes "vault s = Some v" and "secrets v = Some xs" and "py_index xs k = Some j"
  shows "vault (itemDelete s k True) = Some (v\<lparr>secrets := Some (take j xs @ drop (Suc j) xs)\<rparr>)"
proof -
  have vs: "vault_secrets s = Inr xs"
    using assms by (simp add: vault_secrets_def)
  have at: "secret_at s k = Inr (xs ! j)"
    using vs assms(3) by (simp add: secret_at_def getitem_def)
  have pp: "pop xs k = Inr (take j xs @ drop (Suc j) xs)"
    using assms(3) by (simp add: pop_def)
  let ?s2 = "(print [Text []] s)\<lparr>vault := Some (v\<lparr>secrets := Some (take j xs @ drop (Suc j) xs)\<rparr>)\<rparr>"
  have "vault (snd (saveVault ?s2)) = Some (v\<lparr>secrets := Some (take j xs @ drop (Suc j) xs)\<rparr>)"
    by simp
  then show ?thesis
    using vs at pp assms(1)
    by (cases "saveVault ?s2"; cases "fst (saveVault ?s2)") (auto simp: itemDelete_def Let_def)
qed

lemma removed_nth:
  assumes "j < length xs" and "i < length xs - 1"
  shows "\<exists>m. m < length xs \<and> m \<noteq> j \<and> (take j xs @ drop (Suc j) xs) ! i = xs ! m"
proof (cases "i < j")
  case True
  then have "(take j xs @ drop (Suc j) xs) ! i = xs ! i"
    using assms by (simp add: nth_append)
  moreover have "i < length xs" "i \<noteq> j"
    using True assms by auto
  ultimately show ?thesis by blast
next
  case False
  then have "(take j xs @ drop (Suc j) xs) ! i = xs ! Suc i"
    using assms by (simp add: nth_append min_def)
  moreover have "Suc i < length xs" "Suc i \<noteq> j"
    using False assms by auto
  ultimately show ?thesis by blast
qed

lemma get_ItemMenu:
  assumes "get s i = (ItemMenu i' item, st)" and "vault_secrets s = Inr ys"
  shows "\<exists>m. m < length ys \<and> item = ys ! m"
proof -
  from assms have "getitem ys i = Inr item"
    by (auto simp: get_def secret_at_def Let_def split: sum.splits)
  then obtain m where "py_index ys i = Some m" "item = ys ! m"
    by (auto simp: getitem_def split: option.splits)
  then show ?thesis
    using py_index_less by blast
qed

text \<open>
  C2. For a sequence \<open>xs\<close> of secrets and a position \<open>0 \<le> k < length xs\<close>, a confirmed
  \<^verbatim>\<open>itemDelete\<close> leaves the sequence without its item \<open>k\<close>: one item fewer, and as a
  multiset exactly \<open>xs ! k\<close> is gone; the items below \<open>k\<close> stay where they were; every item
  that was at a position \<open>j > k\<close> is at \<open>j - 1\<close>; and whatever \<^verbatim>\<open>get\<close> opens afterwards was at
  a position other than \<open>k\<close> before.
\<close>

theorem itemDelete_shifts:
  assumes "vault s = Some v" and "secrets v = Some xs" and "0 \<le> k" and "k < int (length xs)"
  shows "\<exists>ys. vault_secrets (itemDelete s k True) = Inr ys
    \<and> ys = take (nat k) xs @ drop (Suc (nat k)) xs
    \<and> length ys = length xs - 1
    \<and> add_mset (xs ! nat k) (mset ys) = mset xs
    \<and> (\<forall>j. j < nat k \<longrightarrow> ys ! j = xs ! j)
    \<and> (\<forall>j. nat k < j \<and> j < length xs \<longrightarrow> ys ! (j - 1) = xs ! j)
    \<and> (\<forall>i item st. get (itemDelete s k True) i = (ItemMenu i item, st) \<longrightarrow>
          (\<exists>j. j < length xs \<and> j \<noteq> nat k \<and> item = xs ! j))"
proof -
  define j where "j = nat k"
  define ys where "ys = take j xs @ drop (Suc j) xs"
  have j: "j < length xs"
    using assms(3,4) by (simp add: j_def)
  have "py_index xs k = Some j"
    using assms(3,4) by (simp add: py_index_in j_def)
  with assms(1,2) have "vault (itemDelete s k True) = Some (v\<lparr>secrets := Some ys\<rparr>)"
    unfolding ys_def by (rule itemDelete_secrets)
  then have vs: "vault_secrets (itemDelete s k True) = Inr ys"
    by (simp add: vault_secrets_def)
  have len: "length ys = length xs - 1"
    using j by (auto simp: ys_def)
  have "xs = take j xs @ xs ! j # drop (Suc j) xs"
    using j by (rule id_take_nth_drop)
  then have "mset xs = add_mset (xs ! j) (mset ys)"
    unfolding ys_def by (metis mset.simps(2) mset_append union_mset_add_mset_right)
  then have ms: "add_mset (xs ! j) (mset ys) = mset xs"
    by simp
  have below: "\<forall>i. i < j \<longrightarrow> ys ! i = xs ! i"
    using j by (simp add: ys_def nth_append)
  have above: "\<forall>i. j < i \<and> i < length xs \<longrightarrow> ys ! (i - 1) = xs ! i"
    using j by (auto simp: ys_def nth_append min_def)
  have gone: "\<exists>m. m < length xs \<and> m \<noteq> j \<and> item = xs ! m"
    if "get (itemDelete s k True) i = (ItemMenu i item, st)" for i item st
  proof -
    from that vs obtain m where "m < length ys" "item = ys ! m"
      using get_ItemMenu by blast
    then show ?thesis
      using removed_nth [OF j, of m] len by (auto simp: ys_def)
  qed
  show ?thesis
    using vs len ms below above gone unfolding ys_def [symmetric] j_def [symmetric]
    by blast
qed

theorem itemDelete_shifts_witness:
  "vault demo = Some demo_vault \<and> secrets demo_vault = Some [bank, mail] \<and>
   vault_secrets (itemDelete demo 0 True) = Inr [mail]"
  using itemDelete_shifts [of demo demo_vault "[bank, mail]" 0]
  by (simp add: demo_def demo_vault_def)

section \<open>The secret on the screen\<close>

text \<open>
  C8. For every password and every configured time: when the wait of \<^verbatim>\<open>itemShowSecret\<close>
  ends because the time has run out, and when it ends because the user has cancelled it,
  the method returns with the password masked: of the lines it has printed the terminal
  shows the notice and \<^verbatim>\<open>The password is: \<close> followed by as many asterisks as the
  password has characters, written over the line that held the password. For every time
  that is not negative the wait ends in one of these two ways.
\<close>

theorem itemShowSecret_masks:
  "(time_sleep (hideSecretTTL (config s)) w = Inr () \<or>
    time_sleep (hideSecretTTL (config s)) w = Inl KeyboardInterrupt \<longrightarrow>
      fst (itemShowSecret s pw w) = Inr () \<and>
      shown (drop (length (screen s)) (screen (snd (itemShowSecret s pw w)))) =
        [Text (''The password will be hidden after '' @ str_int (hideSecretTTL (config s)) @
               '' seconds.''),
         Text (''The password is: '' @ replicate (length pw) (CHR ''*''))]) \<and>
   (0 \<le> hideSecretTTL (config s) \<longrightarrow>
      time_sleep (hideSecretTTL (config s)) Elapsed = Inr () \<and>
      time_sleep (hideSecretTTL (config s)) Cancelled = Inl KeyboardInterrupt)"
  by (auto simp: itemShowSecret_def print_def Let_def time_sleep_def split: wait.splits)

theorem itemShowSecret_masks_witness:
  "shown (screen (snd (itemShowSecret demo ''p1'' Elapsed))) =
     [Text ''The password will be hidden after 5 seconds.'', Text ''The password is: **''] \<and>
   shown (screen (snd (itemShowSecret demo ''p1'' Cancelled))) =
     [Text ''The password will be hidden after 5 seconds.'', Text ''The password is: **'']"
  using itemShowSecret_masks [of demo Elapsed "''p1''"]
    itemShowSecret_masks [of demo Cancelled "''p1''"]
  by (simp add: demo_def str_int_def str_nat.simps)

section \<open>Searching: the substring test and the loop\<close>








lemma search_prompt:
  "input_retry (print [Text []] s) = Some (Some q, s1) \<Longrightarrow> search s = Some (search_for s1 q)"
  by (simp add: search_def)

lemma isdigit_not_letter:
  "isdigit q \<Longrightarrow> q \<noteq> [] \<and> q \<notin> set [''s'', ''a'', ''l'', ''q''] \<and> q \<noteq> ''b''"
  by (auto simp: isdigit_def isdigit_char_def)

lemma input_retry_typed:
  "stdin s = Typed q # ks \<Longrightarrow> input_retry s = Some (Some q, s\<lparr>stdin := ks\<rparr>)"
  by (simp add: input_retry.simps [of s] input_def)



lemma search_typed:
  "stdin s = Typed q # ks \<Longrightarrow>
   input_retry (print [Text []] s) = Some (Some q, (print [Text []] s)\<lparr>stdin := ks\<rparr>)"
  by (simp add: input_retry_typed)

section \<open>Searching: what a query leads to\<close>

text \<open>
  C10. When the query that the prompt has read consists of digits only and is the number of
  an item of the vault, \<^verbatim>\<open>search\<close> is \<^verbatim>\<open>get\<close> of that number, which opens the secret at
  that position, whatever the texts of the secrets are; the queries \<^verbatim>\<open>s\<close>, \<^verbatim>\<open>a\<close>, \<^verbatim>\<open>l\<close>
  and \<^verbatim>\<open>q\<close> are returned as menu commands and \<^verbatim>\<open>b\<close> returns to the menu, with nothing
  searched or printed.
\<close>

theorem search_shortcuts:
  assumes "input_retry (print [Text []] s) = Some (Some q, s1)"
  shows "(isdigit q \<and> vault_secrets s1 = Inr xs \<and> int_digits q < length xs \<longrightarrow>
            search s = Some (case get s1 (int (int_digits q)) of (n, s2) \<Rightarrow> (Inr n, s2)) \<and>
            fst (get s1 (int (int_digits q))) =
              ItemMenu (int (int_digits q)) (xs ! int_digits q))
       \<and> (q \<in> set [''s'', ''a'', ''l'', ''q''] \<longrightarrow> search s = Some (Inr (Command q), s1))
       \<and> (q = ''b'' \<longrightarrow> search s = Some (Inr Back, s1))"
proof (intro conjI impI)
  assume a: "isdigit q \<and> vault_secrets s1 = Inr xs \<and> int_digits q < length xs"
  then obtain v where v: "vault s1 = Some v" "secrets v = Some xs"
    by (auto simp: vault_secrets_def split: option.splits)
  from a have "xs \<noteq> []" by auto
  then obtain x xs' where xs: "xs = x # xs'" by (cases xs) auto
  from a have idx: "py_index xs (int (int_digits q)) = Some (int_digits q)"
    by (simp add: py_index_def)
  from a have "q \<noteq> [] \<and> q \<notin> set [''s'', ''a'', ''l'', ''q''] \<and> q \<noteq> ''b''"
    using isdigit_not_letter by blast
  with a v xs idx
  have sf: "search_for s1 q = (case get s1 (int (int_digits q)) of (n, s2) \<Rightarrow> (Inr n, s2))"
    by (simp add: search_for_def Let_def)
  with assms show "search s = Some (case get s1 (int (int_digits q)) of (n, s2) \<Rightarrow> (Inr n, s2))"
    by (simp add: search_prompt)
  show "fst (get s1 (int (int_digits q))) = ItemMenu (int (int_digits q)) (xs ! int_digits q)"
    using a idx by (simp add: get_def secret_at_def getitem_def Let_def)
next
  assume "q \<in> set [''s'', ''a'', ''l'', ''q'']"
  then have "search_for s1 q = (Inr (Command q), s1)"
    by (auto simp: search_for_def)
  with assms show "search s = Some (Inr (Command q), s1)"
    by (simp add: search_prompt)
next
  assume "q = ''b''"
  then have "search_for s1 q = (Inr Back, s1)"
    by (simp add: search_for_def)
  with assms show "search s = Some (Inr Back, s1)"
    by (simp add: search_prompt)
qed

theorem search_shortcuts_witness:
  "map_option fst (search (demo\<lparr>stdin := [Typed ''1'']\<rparr>)) = Some (Inr (ItemMenu 1 mail)) \<and>
   map_option fst (search (demo\<lparr>stdin := [Typed ''q'']\<rparr>)) = Some (Inr (Command ''q'')) \<and>
   map_option fst (search (demo\<lparr>stdin := [Typed ''b'']\<rparr>)) = Some (Inr Back)"
proof -
  have prompt: "input_retry (print [Text []] (demo\<lparr>stdin := [Typed q]\<rparr>)) =
      Some (Some q, (print [Text []] (demo\<lparr>stdin := [Typed q]\<rparr>))\<lparr>stdin := []\<rparr>)" for q
    by (simp add: search_typed)
  have vs: "vault_secrets ((print [Text []] (demo\<lparr>stdin := [Typed ''1'']\<rparr>))\<lparr>stdin := []\<rparr>) =
      Inr [bank, mail]"
    by (simp add: demo_def demo_vault_def print_def vault_secrets_def)
  have digit: "isdigit ''1''" "int_digits ''1'' = 1"
    by (simp_all add: isdigit_def isdigit_char_def int_digits_def)
  have "map_option fst (search (demo\<lparr>stdin := [Typed ''1'']\<rparr>)) = Some (Inr (ItemMenu 1 mail))"
    using search_shortcuts [OF prompt, of "''1''" "[bank, mail]"] vs digit
    by (simp add: case_prod_beta)
  moreover
  have "map_option fst (search (demo\<lparr>stdin := [Typed ''q'']\<rparr>)) = Some (Inr (Command ''q''))"
    using search_shortcuts [OF prompt, of "''q''"] by simp
  moreover
  have "map_option fst (search (demo\<lparr>stdin := [Typed ''b'']\<rparr>)) = Some (Inr Back)"
    using search_shortcuts [OF prompt, of "''b''"] by simp
  ultimately show ?thesis by simp
qed






section \<open>Category numbers that are not checked\<close>

lemmas run_simps = input_def print_def categoriesList_def categoryCheckId_def isdigit_def
  isdigit_char_def int_digits_def vault_secrets_def Let_def newline_def saveVault_def

text \<open>
  C3 does not hold of the code. In the vault of the example \<^verbatim>\<open>9\<close> is the number of no
  category. \<^verbatim>\<open>addItemInput\<close> answers it with \<^verbatim>\<open>Invalid category. Please try again.\<close>
  and asks again; the user then adds a secret without a category. When that inner call
  returns, the outer one goes on with its own \<^verbatim>\<open>categoryId\<close>, asks for name, login,
  password and notes once more and adds a second secret, whose category is \<^verbatim>\<open>9\<close>.
  \<^verbatim>\<open>editItemInput\<close> does the same: the inner call sets the category that was entered at
  the second prompt, and the outer call then assigns \<^verbatim>\<open>9\<close> and saves.
\<close>

theorem invalid_category_is_stored:
  "\<not> categoryCheckId demo_vault ''9'' \<and>
   map_option (\<lambda>(r, s'). (r, vault_secrets s',
        Text ''Invalid category. Please try again.'' \<in> set (screen s')))
     (addItemInput (demo\<lparr>stdin := [Typed ''9'', Typed [], Typed ''n1'', Typed ''l1'', Typed ''pw1'',
        Typed [], Typed ''n2'', Typed ''l2'', Typed ''pw2'', Typed []]\<rparr>)) =
     Some (Inr (), Inr [bank, mail,
        \<lparr>category = [], name = ''n1'', login = ''l1'', password = ''pw1'', notes' = []\<rparr>,
        \<lparr>category = ''9'', name = ''n2'', login = ''l2'', password = ''pw2'', notes' = []\<rparr>], True) \<and>
   map_option (\<lambda>(r, s'). (r, vault_secrets s',
        Text ''Invalid category. Please try again.'' \<in> set (screen s')))
     (editItemInput (demo\<lparr>stdin := [Typed ''9'', Typed []]\<rparr>) 0 F_category []) =
     Some (Inr (), Inr [bank\<lparr>category := ''9''\<rparr>, mail], True)"
  by (simp add: addItemInput.simps addItemInput_settings_def editItemInput.simps demo_def
      demo_vault_def input_retry.simps read_notes.simps addItem_def assign_field_def
      py_index_def run_simps)

section \<open>Every change is saved\<close>



lemma core_print [simp]: "core (print os s) = core s"
  by (simp add: core_def print_def)

lemma core_stdin [simp]: "core (s\<lparr>stdin := ks\<rparr>) = core s"
  by (simp add: core_def)



lemma core_categoriesList [simp]: "core (categoriesList v s) = core s"
  by (simp add: categoriesList_def)















lemma saveVault_result:
  assumes "saveVault t = (res, t')"
  shows "vault t' = vault t \<and> masterKey t' = masterKey t \<and>
    saves t' = saves t @ [(masterKey t, vault t)] \<and>
    (case res of
       Inl e \<Rightarrow> vaultFile t' = vaultFile t
     | Inr u \<Rightarrow> (\<exists>k v. masterKey t = Some k \<and> vault t = Some v \<and>
                   vaultFile t' = Some (Encrypted k v)))"
  using assms
  by (auto simp: saveVault_def Let_def split: option.splits list.splits bool.splits)

lemma decrypt_Inr: "decrypt p f = Inr v \<longleftrightarrow> f = Encrypted p v"
  by (cases f) auto

lemma unlock_result:
  assumes "unlock t = Some (res, t')"
  shows "saves t' = saves t \<and> vaultFile t' = vaultFile t \<and>
    ((vault t' = vault t \<and> masterKey t' = masterKey t) \<or>
     (\<exists>p v. vaultFile t = Some (Encrypted p v) \<and> vault t' = Some v \<and> masterKey t' = Some p))"
  using assms
  by (auto simp: unlock_def input_def decrypt_Inr
      split: option.splits sum.splits list.splits key_in.splits)

lemma changeKey_unlocked:
  assumes "vault s \<noteq> None"
  shows "changeKey s =
     (case input (print [Text []] s) of
        None \<Rightarrow> None
      | Some (Inl e, s1) \<Rightarrow> Some (Inl e, s1)
      | Some (Inr newMasterKey, s1) \<Rightarrow>
     (case input s1 of
        None \<Rightarrow> None
      | Some (Inl e, s2) \<Rightarrow> Some (Inl e, s2)
      | Some (Inr newMasterKeyRepeat, s2) \<Rightarrow>
          if length newMasterKey < 8 then
            changeKey
              (print [Text [],
                 Text ''The master key should be at least 8 characters. Please try again!'',
                 Text []] s2)
          else if newMasterKey = newMasterKeyRepeat then
            (case saveVault (s2\<lparr>masterKey := Some newMasterKey\<rparr>) of
               (Inl e, s3) \<Rightarrow> Some (Inl e, s3)
             | (Inr u, s3) \<Rightarrow>
                 unlock (print [Text [], Text ''Your master key has been updated.''] s3))
          else
            changeKey
              (print [Text [],
                 Text ''The master key does not match its confirmation. Please try again!'',
                 Text []] s2)))"
proof -
  from assms obtain v where "vault s = Some v" by auto
  then show ?thesis by (subst changeKey.simps) simp
qed

lemma input_fields:
  "input s = Some (r, s') \<Longrightarrow>
   vault s' = vault s \<and> masterKey s' = masterKey s \<and> saves s' = saves s \<and>
   vaultFile s' = vaultFile s \<and> writes s' = writes s"
  by (auto simp: input_def split: list.splits key_in.splits)

lemma same_fields_print [simp]: "same_fields s (print os t) = same_fields s t"
  by (simp add: same_fields_def)

lemma same_fields_input: "input t = Some (a, t') \<Longrightarrow> same_fields s t \<Longrightarrow> same_fields s t'"
  by (auto simp: same_fields_def dest: input_fields)

lemma key_change_same: "same_fields s t \<Longrightarrow> key_change s t"
  by (simp add: key_change_def)

lemma key_change_from: "same_fields s t \<Longrightarrow> key_change t u \<Longrightarrow> key_change s u"
  by (auto simp: key_change_def same_fields_def)

lemma changeKey_key_change:
  "vault s \<noteq> None \<Longrightarrow> changeKey s = Some (r, s') \<Longrightarrow> key_change s s'"
proof (induction s arbitrary: r s' rule: changeKey.induct)
  case (1 s)
  note unlocked = "1.prems"(1)
  have f0: "(if vault s = None then unlock s else Some (Inr (), s)) = Some (Inr (), s)"
    using unlocked by auto
  note run = "1.prems"(2) [unfolded changeKey_unlocked [OF unlocked]]
  from run obtain a s1 where i1: "input (print [Text []] s) = Some (a, s1)"
    by (cases "input (print [Text []] s)") auto
  have sf1: "same_fields s s1"
    using same_fields_input [OF i1, of s] by (simp add: same_fields_def)
  show ?case
  proof (cases a)
    case (Inl e)
    with run i1 have "s' = s1" by simp
    with sf1 show ?thesis by (simp add: key_change_same)
  next
    case new: (Inr new)
    from run i1 new obtain b s2 where i2: "input s1 = Some (b, s2)"
      by (cases "input s1") auto
    have sf2: "same_fields s s2"
      using same_fields_input [OF i2 sf1] .
    show ?thesis
    proof (cases b)
      case (Inl e)
      with run i1 new i2 have "s' = s2" by simp
      with sf2 show ?thesis by (simp add: key_change_same)
    next
      case rep: (Inr rep)
      consider (weak) "length new < 8"
        | (differ) "\<not> length new < 8" "new \<noteq> rep"
        | (change) "\<not> length new < 8" "new = rep"
        by blast
      then show ?thesis
      proof cases
        case weak
        let ?t = "print [Text [],
          Text ''The master key should be at least 8 characters. Please try again!'',
          Text []] s2"
        have v: "vault ?t \<noteq> None"
          using sf2 unlocked by (simp add: same_fields_def)
        from run i1 new i2 rep weak have rec: "changeKey ?t = Some (r, s')"
          by simp
        have "key_change ?t s'"
          using "1.IH"(1) [OF f0 refl refl i1 [unfolded new] refl refl i2 [unfolded rep]
              refl refl weak v rec] .
        with sf2 show ?thesis by (auto intro: key_change_from [rotated])
      next
        case differ
        let ?t = "print [Text [],
          Text ''The master key does not match its confirmation. Please try again!'',
          Text []] s2"
        have v: "vault ?t \<noteq> None"
          using sf2 unlocked by (simp add: same_fields_def)
        from run i1 new i2 rep differ have rec: "changeKey ?t = Some (r, s')"
          by simp
        have "key_change ?t s'"
          using "1.IH"(2) [OF f0 refl refl i1 [unfolded new] refl refl i2 [unfolded rep]
              refl refl differ v rec] .
        with sf2 show ?thesis by (auto intro: key_change_from [rotated])
      next
        case change
        obtain res s3 where sv: "saveVault (s2\<lparr>masterKey := Some new\<rparr>) = (res, s3)"
          by (cases "saveVault (s2\<lparr>masterKey := Some new\<rparr>)")
        from sf2 have s2: "vault s2 = vault s" "saves s2 = saves s" "vaultFile s2 = vaultFile s"
          by (simp_all add: same_fields_def)
        note s3 = saveVault_result [OF sv, simplified]
        have strong: "8 \<le> length new"
          using change by simp
        show ?thesis
        proof (cases res)
          case (Inl e)
          with run i1 new i2 rep change sv have "s' = s3" by simp
          with s3 s2 Inl strong show ?thesis
            by (auto simp: key_change_def)
        next
          case (Inr u)
          let ?t = "print [Text [], Text ''Your master key has been updated.''] s3"
          from run i1 new i2 rep change sv Inr have ul: "unlock ?t = Some (r, s')"
            by simp
          from s3 Inr s2 obtain v where
            f3: "vault s = Some v" "vaultFile s3 = Some (Encrypted new v)"
            by auto
          from unlock_result [OF ul] f3 s3 s2
          have "vault s' = vault s \<and> masterKey s' = Some new \<and>
            saves s' = saves s @ [(Some new, vault s)] \<and> vaultFile s' = Some (Encrypted new v)"
            by auto
          with strong f3 show ?thesis
            by (auto simp: key_change_def)
        qed
      qed
    qed
  qed
qed





section \<open>The new master key\<close>

lemma unlock_unlocks: "unlock s = Some (Inr u, s0) \<Longrightarrow> vault s0 \<noteq> None"
  by (auto simp: unlock_def split: option.splits sum.splits prod.splits)

lemma changeKey_locked:
  assumes "vault s = None"
  shows "changeKey s =
     (case unlock s of
        None \<Rightarrow> None
      | Some (Inl e, s0) \<Rightarrow> Some (Inl e, s0)
      | Some (Inr u, s0) \<Rightarrow> changeKey s0)"
proof (cases "unlock s")
  case None
  with assms show ?thesis by (subst changeKey.simps) simp
next
  case (Some p)
  obtain res s0 where p: "p = (res, s0)" by (cases p)
  show ?thesis
  proof (cases res)
    case (Inl e)
    with assms Some p show ?thesis by (subst changeKey.simps) simp
  next
    case (Inr u)
    with Some p have "vault s0 \<noteq> None" by (auto dest: unlock_unlocks)
    then have "changeKey s0 = 
     (case input (print [Text []] s0) of
        None \<Rightarrow> None
      | Some (Inl e, s1) \<Rightarrow> Some (Inl e, s1)
      | Some (Inr newMasterKey, s1) \<Rightarrow>
     (case input s1 of
        None \<Rightarrow> None
      | Some (Inl e, s2) \<Rightarrow> Some (Inl e, s2)
      | Some (Inr newMasterKeyRepeat, s2) \<Rightarrow>
          if length newMasterKey < 8 then
            changeKey
              (print [Text [],
                 Text ''The master key should be at least 8 characters. Please try again!'',
                 Text []] s2)
          else if newMasterKey = newMasterKeyRepeat then
            (case saveVault (s2\<lparr>masterKey := Some newMasterKey\<rparr>) of
               (Inl e, s3) \<Rightarrow> Some (Inl e, s3)
             | (Inr u, s3) \<Rightarrow>
                 unlock (print [Text [], Text ''Your master key has been updated.''] s3))
          else
            changeKey
              (print [Text [],
                 Text ''The master key does not match its confirmation. Please try again!'',
                 Text []] s2)))"
      by (rule changeKey_unlocked)
    with assms Some p Inr show ?thesis
      by (subst changeKey.simps) simp
  qed
qed

lemma changeKey_weak_step:
  assumes "vault s \<noteq> None" and "stdin s = Typed new # Typed rep # rest" and "length new < 8"
  shows "changeKey s =
    changeKey (s\<lparr>stdin := rest,
      screen := screen s @ [Text [], Text [],
        Text ''The master key should be at least 8 characters. Please try again!'', Text []]\<rparr>)"
  using assms(2,3) unfolding changeKey_unlocked [OF assms(1)]
  by (simp add: input_def print_def)

text \<open>
  C7. On an unlocked vault, a new key of fewer than 8 characters is answered with
  \<^verbatim>\<open>The master key should be at least 8 characters. Please try again!\<close> and
  \<^verbatim>\<open>changeKey\<close> starts again with key, vault, file and saves untouched. Whatever is
  entered afterwards, when \<^verbatim>\<open>changeKey\<close> returns the live key is the old one or has at
  least 8 characters, every save made on the way was made under a key of at least 8
  characters, and so is the file if it has changed. On a locked vault \<^verbatim>\<open>changeKey\<close> is
  \<^verbatim>\<open>unlock\<close> followed, when that succeeds, by \<^verbatim>\<open>changeKey\<close> on the vault it has unlocked.
\<close>

theorem changeKey_rejects_short_key:
  "(vault s \<noteq> None \<and> stdin s = Typed new # Typed rep # rest \<and> length new < 8 \<longrightarrow>
      changeKey s =
        changeKey (s\<lparr>stdin := rest,
          screen := screen s @ [Text [], Text [],
            Text ''The master key should be at least 8 characters. Please try again!'',
            Text []]\<rparr>)) \<and>
   (vault s \<noteq> None \<and> changeKey s = Some (r, s') \<longrightarrow>
      (masterKey s' = masterKey s \<or> (\<exists>k. masterKey s' = Some k \<and> 8 \<le> length k)) \<and>
      (\<forall>k v. (k, v) \<in> set (drop (length (saves s)) (saves s')) \<longrightarrow>
         (\<exists>key. k = Some key \<and> 8 \<le> length key)) \<and>
      (vaultFile s' = vaultFile s \<or>
       (\<exists>k v. vaultFile s' = Some (Encrypted k v) \<and> 8 \<le> length k))) \<and>
   (vault s = None \<longrightarrow>
      changeKey s =
        (case unlock s of
           None \<Rightarrow> None
         | Some (Inl e, s0) \<Rightarrow> Some (Inl e, s0)
         | Some (Inr u, s0) \<Rightarrow> changeKey s0) \<and>
      (\<forall>u s0. unlock s = Some (Inr u, s0) \<longrightarrow> vault s0 \<noteq> None))"
proof (intro conjI impI)
  assume "vault s \<noteq> None \<and> stdin s = Typed new # Typed rep # rest \<and> length new < 8"
  then show "changeKey s =
      changeKey (s\<lparr>stdin := rest,
        screen := screen s @ [Text [], Text [],
          Text ''The master key should be at least 8 characters. Please try again!'',
          Text []]\<rparr>)"
    using changeKey_weak_step by blast
next
  assume a: "vault s \<noteq> None \<and> changeKey s = Some (r, s')"
  then have kc: "key_change s s'"
    using changeKey_key_change by blast
  from kc show "masterKey s' = masterKey s \<or> (\<exists>k. masterKey s' = Some k \<and> 8 \<le> length k)"
    by (auto simp: key_change_def same_fields_def)
  from kc show "\<forall>k v. (k, v) \<in> set (drop (length (saves s)) (saves s')) \<longrightarrow>
      (\<exists>key. k = Some key \<and> 8 \<le> length key)"
    by (auto simp: key_change_def same_fields_def)
  from kc show "vaultFile s' = vaultFile s \<or>
      (\<exists>k v. vaultFile s' = Some (Encrypted k v) \<and> 8 \<le> length k)"
    by (auto simp: key_change_def same_fields_def)
next
  assume "vault s = None"
  then show "changeKey s =
      (case unlock s of
         None \<Rightarrow> None
       | Some (Inl e, s0) \<Rightarrow> Some (Inl e, s0)
       | Some (Inr u, s0) \<Rightarrow> changeKey s0)"
    by (rule changeKey_locked)
next
  show "\<forall>u s0. unlock s = Some (Inr u, s0) \<longrightarrow> vault s0 \<noteq> None"
    using unlock_unlocks by blast
qed

theorem changeKey_rejects_short_key_witness:
  "changeKey (demo\<lparr>stdin := [Typed ''short'', Typed ''short'', CtrlC]\<rparr>) =
     Some (Inl KeyboardInterrupt,
       demo\<lparr>stdin := [],
         screen := [Text [], Text [],
           Text ''The master key should be at least 8 characters. Please try again!'',
           Text [], Text []]\<rparr>)"
proof -
  have "vault (demo\<lparr>stdin := [Typed ''short'', Typed ''short'', CtrlC]\<rparr>) \<noteq> None"
    by (simp add: demo_def)
  with changeKey_rejects_short_key
    [of "demo\<lparr>stdin := [Typed ''short'', Typed ''short'', CtrlC]\<rparr>" "''short''" "''short''" "[CtrlC]"]
  have "changeKey (demo\<lparr>stdin := [Typed ''short'', Typed ''short'', CtrlC]\<rparr>) =
      changeKey (demo\<lparr>stdin := [CtrlC],
        screen := [Text [], Text [],
          Text ''The master key should be at least 8 characters. Please try again!'',
          Text []]\<rparr>)"
    by (simp add: demo_def)
  also have "\<dots> = Some (Inl KeyboardInterrupt,
       demo\<lparr>stdin := [],
         screen := [Text [], Text [],
           Text ''The master key should be at least 8 characters. Please try again!'',
           Text [], Text []]\<rparr>)"
    by (simp add: changeKey.simps demo_def input_def print_def)
  finally show ?thesis .
qed

text \<open>
  C1, as the code has it. On an unlocked vault, with a new key of at least 8 characters
  entered twice, \<^verbatim>\<open>changeKey\<close> first makes the new key the live key and then saves. When
  the write fails, \<^verbatim>\<open>changeKey\<close> ends with \<open>PersistenceError\<close>: the live key is already
  the new one, and the file is the old file. When the write succeeds the file holds the whole
  vault under the new key, and \<^verbatim>\<open>unlock\<close> follows.
\<close>

theorem changeKey_assigns_then_saves:
  assumes "vault s = Some v" and "stdin s = Typed new # Typed new # rest" and "8 \<le> length new"
  shows "(writes s = False # ws \<longrightarrow>
      changeKey s = Some (Inl PersistenceError,
        s\<lparr>stdin := rest, screen := screen s @ [Text []], masterKey := Some new,
          saves := saves s @ [(Some new, Some v)], writes := ws\<rparr>)) \<and>
    (writes s = [] \<or> writes s = True # ws \<longrightarrow>
      changeKey s =
        unlock (s\<lparr>stdin := rest,
          screen := screen s @ [Text [], Text [], Text ''Your master key has been updated.''],
          masterKey := Some new, saves := saves s @ [(Some new, Some v)],
          vaultFile := Some (Encrypted new v), writes := tl (writes s)\<rparr>))"
proof -
  have unlocked: "vault s \<noteq> None"
    using assms(1) by simp
  let ?s2 = "(print [Text []] s)\<lparr>stdin := rest, masterKey := Some new\<rparr>"
  have run: "changeKey s =
      (case saveVault ?s2 of
         (Inl e, s3) \<Rightarrow> Some (Inl e, s3)
       | (Inr u, s3) \<Rightarrow> unlock (print [Text [], Text ''Your master key has been updated.''] s3))"
    using assms(2,3) unfolding changeKey_unlocked [OF unlocked]
    by (simp add: input_def print_def)
  have failing: "saveVault ?s2 = (Inl PersistenceError,
        s\<lparr>stdin := rest, screen := screen s @ [Text []], masterKey := Some new,
          saves := saves s @ [(Some new, Some v)], writes := ws\<rparr>)"
    if "writes s = False # ws"
    using that assms(1) by (cases s) (simp add: saveVault_def print_def Let_def)
  have writing: "print [Text [], Text ''Your master key has been updated.'']
        (snd (saveVault ?s2)) =
        s\<lparr>stdin := rest,
          screen := screen s @ [Text [], Text [], Text ''Your master key has been updated.''],
          masterKey := Some new, saves := saves s @ [(Some new, Some v)],
          vaultFile := Some (Encrypted new v), writes := tl (writes s)\<rparr> \<and>
        fst (saveVault ?s2) = Inr ()"
    if "writes s = [] \<or> writes s = True # ws"
    using that assms(1) by (cases s) (auto simp: saveVault_def print_def Let_def)
  show ?thesis
  proof (intro conjI impI)
    assume "writes s = False # ws"
    then show "changeKey s = Some (Inl PersistenceError,
        s\<lparr>stdin := rest, screen := screen s @ [Text []], masterKey := Some new,
          saves := saves s @ [(Some new, Some v)], writes := ws\<rparr>)"
      using run failing by simp
  next
    assume "writes s = [] \<or> writes s = True # ws"
    from writing [OF this] show "changeKey s =
        unlock (s\<lparr>stdin := rest,
          screen := screen s @ [Text [], Text [], Text ''Your master key has been updated.''],
          masterKey := Some new, saves := saves s @ [(Some new, Some v)],
          vaultFile := Some (Encrypted new v), writes := tl (writes s)\<rparr>)"
      unfolding run by (cases "saveVault ?s2") auto
  qed
qed

theorem changeKey_assigns_then_saves_witness:
  "changeKey (demo\<lparr>stdin := [Typed ''newkey123'', Typed ''newkey123''], writes := [False]\<rparr>) =
     Some (Inl PersistenceError,
       demo\<lparr>stdin := [], screen := [Text []], masterKey := Some ''newkey123'',
         saves := [(Some ''newkey123'', Some demo_vault)], writes := []\<rparr>) \<and>
   changeKey (demo\<lparr>stdin := [Typed ''newkey123'', Typed ''newkey123'', Typed ''newkey123'']\<rparr>) =
     Some (Inr (),
       demo\<lparr>stdin := [],
         screen := [Text [], Text [], Text ''Your master key has been updated.''],
         masterKey := Some ''newkey123'', saves := [(Some ''newkey123'', Some demo_vault)],
         vaultFile := Some (Encrypted ''newkey123'' demo_vault)\<rparr>)"
  using changeKey_assigns_then_saves [of
      "demo\<lparr>stdin := [Typed ''newkey123'', Typed ''newkey123''], writes := [False]\<rparr>"
      demo_vault "''newkey123''" "[]" "[]"]
    changeKey_assigns_then_saves [of
      "demo\<lparr>stdin := [Typed ''newkey123'', Typed ''newkey123'', Typed ''newkey123'']\<rparr>"
      demo_vault "''newkey123''" "[Typed ''newkey123'']" "[]"]
  by (simp add: demo_def unlock_def input_def)

text \<open>
  C1 as it is stated fails: the old key is given up before the vault is written. After a
  failed write the key in memory is the new one, which does not open the file on disk; the
  file still opens under the old key only.
\<close>

theorem changeKey_drops_old_key_before_write:
  "map_option (\<lambda>(r, s'). (r, masterKey s', vaultFile s'))
     (changeKey (demo\<lparr>stdin := [Typed ''newkey123'', Typed ''newkey123''], writes := [False]\<rparr>)) =
     Some (Inl PersistenceError, Some ''newkey123'', Some (Encrypted ''correcthorse'' demo_vault)) \<and>
   decrypt ''newkey123'' (Encrypted ''correcthorse'' demo_vault) = Inl AuthenticationFailed"
  by (simp add: changeKey.simps demo_def run_simps)

end
